theory Spec2Isabelle
  imports Complex_Main "HOL-Library.AList"
begin

section \<open>Python values, dictionaries and exceptions\<close>

text \<open>
  The scraper only handles values that JSON can hold: \<open>None\<close>, booleans, integers, floats,
  strings, lists and dictionaries with string keys. A dictionary is an association list with
  distinct keys in insertion order; \<open>d[k] = v\<close> is \<open>AList.update k v d\<close> (the value is
  replaced in place, a new key goes to the end). Finite floats are exact rationals here;
  NaN and the infinities are not modelled.
\<close>

datatype pyval =
    PNone
  | PBool bool
  | PInt int
  | PFloat rat
  | PStr string
  | PList "pyval list"
  | PDict "(string \<times> pyval) list"

type_synonym pydict = "(string \<times> pyval) list"

datatype error = ValueError | TypeError | KeyError | AttributeError | JSONDecodeError

definition dict_get :: "pydict \<Rightarrow> string \<Rightarrow> pyval \<Rightarrow> pyval" where
  "dict_get d k dflt = (case map_of d k of None \<Rightarrow> dflt | Some v \<Rightarrow> v)"

definition dict_has :: "pydict \<Rightarrow> string \<Rightarrow> bool" where
  "dict_has d k = (case map_of d k of None \<Rightarrow> False | Some v \<Rightarrow> True)"

text \<open>
  \<open>a != b\<close> on the values compared in \<open>main\<close>. Booleans, integers and floats compare by
  numeric value (\<open>True == 1\<close>, \<open>59.0 == 59\<close>); everything else compares by structure.
\<close>

fun num_val :: "pyval \<Rightarrow> rat option" where
  "num_val (PBool b) = Some (if b then 1 else 0)"
| "num_val (PInt n) = Some (of_int n)"
| "num_val (PFloat r) = Some r"
| "num_val v = None"

definition py_ne :: "pyval \<Rightarrow> pyval \<Rightarrow> bool" where
  "py_ne a b =
     (case (num_val a, num_val b) of
        (Some x, Some y) \<Rightarrow> x \<noteq> y
      | (None, None) \<Rightarrow> a \<noteq> b
      | other \<Rightarrow> True)"

section \<open>Conversions: \<open>int(s)\<close>, \<open>float(s)\<close>, \<open>int(round(x))\<close>\<close>

definition is_digit :: "char \<Rightarrow> bool" where
  "is_digit c = (c \<in> set ''0123456789'')"

text \<open>The value of a digit is its position in \<open>0123456789\<close>.\<close>

definition digit_val :: "char \<Rightarrow> nat" where
  "digit_val c = length (takeWhile (\<lambda>d. d \<noteq> c) ''0123456789'')"

fun digits_val :: "string \<Rightarrow> nat \<Rightarrow> nat" where
  "digits_val [] acc = acc"
| "digits_val (c # cs) acc = digits_val cs (10 * acc + digit_val c)"

text \<open>
  \<open>int(s)\<close> on a non-empty string of the digits 0 to 9. Every other string raises
  ValueError in the model. That includes the decimal digits of other scripts, which
  \<open>\d\<close> matches and \<open>int\<close> and \<open>float\<close> convert: the model covers pages whose
  dimensions and prices are written with the digits 0 to 9.
\<close>

definition py_int :: "string \<Rightarrow> int option" where
  "py_int s = (if s \<noteq> [] \<and> list_all is_digit s then Some (int (digits_val s 0)) else None)"

text \<open>
  \<open>float(s)\<close> on the strings the price groups capture (\<open>\d+(?:\.\d{2})?\<close> and
  \<open>[\d.]+\<close>): digits with at most one dot and at least one digit. A second dot or
  a lone dot raises ValueError (\<open>None\<close> here). The value is the exact decimal.
  Python rounds it to the nearest binary64 float, and gives infinity beyond the range of
  binary64 (a number of some 309 digits), on which \<open>int(round(x))\<close> raises
  OverflowError; the model has neither the rounding nor infinity. For amounts of the size of a monthly rent the
  rounding error changes neither the comparison of two prices nor the nearest integer.
\<close>

definition py_float :: "string \<Rightarrow> rat option" where
  "py_float s =
     (let ip = takeWhile is_digit s; rest = dropWhile is_digit s in
      case rest of
        [] \<Rightarrow> if ip = [] then None else Some (of_nat (digits_val ip 0))
      | c # fp \<Rightarrow>
          if c = CHR ''.'' \<and> list_all is_digit fp \<and> \<not> (ip = [] \<and> fp = [])
          then Some (of_nat (digits_val ip 0) + of_nat (digits_val fp 0) / 10 ^ length fp)
          else None)"

text \<open>\<open>int(round(x))\<close>: Python 3 rounds to the nearest integer, a tie to the even one.\<close>

definition py_round :: "rat \<Rightarrow> int" where
  "py_round x =
     (let f = \<lfloor>x\<rfloor>; r = x - of_int f in
      if r < 1 / 2 then f
      else if 1 / 2 < r then f + 1
      else if even f then f else f + 1)"

section \<open>Fetching and pattern matching\<close>

text \<open>
  The regular expressions of the scrapers. \<open>re.findall\<close> and \<open>urlopen\<close> are library
  code: the environment gives, for a page, the matches of each pattern, and for a URL
  the page text (\<open>None\<close> when \<open>fetch\<close> caught an exception).
  Honea Egypt, Montgomery and Woodlands use the same expression.
\<close>

datatype pattern =
    PS_DimThenPrice
  | PS_PriceThenDim
  | PS_PriceAttr
  | PS_DimText
  | LA_DimThenPrice
  | DimThenPrice

record env =
  fetch :: "string \<Rightarrow> string option"
  findall3 :: "pattern \<Rightarrow> string \<Rightarrow> (string \<times> string \<times> string) list"
  findall1 :: "pattern \<Rightarrow> string \<Rightarrow> string list"

text \<open>
  \<open>fetch(url)\<close> as the scrapers call it. \<open>Request(None)\<close> raises ValueError before the
  \<open>try\<close> block is entered.
\<close>

definition fetch_url :: "env \<Rightarrow> string option \<Rightarrow> error + string option" where
  "fetch_url e url = (case url of None \<Rightarrow> Inl ValueError | Some u \<Rightarrow> Inr (fetch e u))"

section \<open>Scrapers\<close>

definition canonical_sizes :: "string list" where
  "canonical_sizes = [''5x10'', ''10x10'', ''10x15'', ''10x20'', ''10x30'']"

definition empty_pricing :: pydict where
  "empty_pricing =
     [(''5x10'', PNone), (''10x10'', PNone), (''10x15'', PNone), (''10x20'', PNone),
      (''10x30'', PNone)]"

text \<open>\<open>k not in size_prices or price < size_prices[k]\<close>\<close>

definition cheaper :: "(string \<times> rat) list \<Rightarrow> string \<Rightarrow> rat \<Rightarrow> bool" where
  "cheaper sp k p = (case map_of sp k of None \<Rightarrow> True | Some q \<Rightarrow> p < q)"

text \<open>\<open>for size, price in size_prices.items(): pricing[size] = int(round(price))\<close>\<close>

fun store_prices :: "(string \<times> rat) list \<Rightarrow> pydict \<Rightarrow> pydict" where
  "store_prices [] pricing = pricing"
| "store_prices ((sz, price) # sp) pricing =
     store_prices sp (AList.update sz (PInt (py_round price)) pricing)"

text \<open>The same loop with Lockaway's guard \<open>if size in pricing\<close>.\<close>

fun store_prices_known :: "(string \<times> rat) list \<Rightarrow> pydict \<Rightarrow> pydict" where
  "store_prices_known [] pricing = pricing"
| "store_prices_known ((sz, price) # sp) pricing =
     (if dict_has pricing sz
      then store_prices_known sp (AList.update sz (PInt (py_round price)) pricing)
      else store_prices_known sp pricing)"

subsection \<open>Public Storage\<close>

fun size_map :: "int \<times> int \<Rightarrow> string option" where
  "size_map (w, d) =
     (if (w, d) \<in> {(5, 5), (5, 6), (5, 8), (5, 10), (5, 14), (5, 15)} then Some ''5x10''
      else if (w, d) \<in> {(7, 14), (10, 10), (10, 14)} then Some ''10x10''
      else if (w, d) \<in> {(10, 15), (10, 17)} then Some ''10x15''
      else if (w, d) \<in> {(10, 19), (10, 20)} then Some ''10x20''
      else if (w, d) \<in> {(10, 30), (10, 40), (12, 28)} then Some ''10x30''
      else None)"

fun ps_collect ::
  "(string \<times> string \<times> string) list \<Rightarrow> (string \<times> rat) list \<Rightarrow> error + (string \<times> rat) list"
where
  "ps_collect [] sp = Inr sp"
| "ps_collect ((w, d, price) # bs) sp =
     (case py_int w of None \<Rightarrow> Inl ValueError | Some wi \<Rightarrow>
      case py_int d of None \<Rightarrow> Inl ValueError | Some di \<Rightarrow>
      case py_float price of None \<Rightarrow> Inl ValueError | Some p \<Rightarrow>
      case size_map (wi, di) of
        None \<Rightarrow> ps_collect bs sp
      | Some mapped \<Rightarrow>
          if cheaper sp mapped p then ps_collect bs (AList.update mapped p sp)
          else ps_collect bs sp)"

text \<open>Lines 91 to 115 of \<open>scrape_public_storage\<close>, from the paired matches on.\<close>

definition ps_finish :: "(string \<times> string \<times> string) list \<Rightarrow> error + pydict option" where
  "ps_finish unit_blocks =
     (case ps_collect unit_blocks [] of
        Inl e \<Rightarrow> Inl e
      | Inr size_prices \<Rightarrow> Inr (Some (store_prices size_prices empty_pricing)))"

text \<open>
  A scraper returns the patterns it evaluated, in order, and its outcome: an exception,
  \<open>None\<close>, or a pricing dictionary.
\<close>

definition scrape_public_storage ::
  "env \<Rightarrow> string option \<Rightarrow> string \<Rightarrow> pattern list \<times> (error + pydict option)"
where
  "scrape_public_storage e url facility_name =
     (case fetch_url e url of
        Inl err \<Rightarrow> ([], Inl err)
      | Inr None \<Rightarrow> ([], Inr None)
      | Inr (Some html) \<Rightarrow>
          if html = [] then ([], Inr None)
          else
            let unit_blocks = findall3 e PS_DimThenPrice html in
            if unit_blocks \<noteq> [] then ([PS_DimThenPrice], ps_finish unit_blocks)
            else
              let alt = findall3 e PS_PriceThenDim html in
              if alt \<noteq> []
              then ([PS_DimThenPrice, PS_PriceThenDim],
                    ps_finish (map (\<lambda>(price, w, d). (w, d, price)) alt))
              else
                let prices_raw = findall1 e PS_PriceAttr html;
                    tried = [PS_DimThenPrice, PS_PriceThenDim, PS_PriceAttr, PS_DimText]
                in if prices_raw = [] then (tried, Inr (Some empty_pricing))
                   else (tried, ps_finish []))"

subsection \<open>Lockaway, Montgomery, Woodlands, Honea Egypt\<close>

text \<open>
  The loop of \<open>scrape_montgomery\<close> (lines 204 to 208) and the first loop of
  \<open>scrape_lockaway\<close> (lines 137 to 142): the key is the captured text, unconverted.
\<close>

fun collect_cheapest ::
  "pydict \<Rightarrow> (string \<times> string \<times> string) list \<Rightarrow> (string \<times> rat) list \<Rightarrow>
   error + (string \<times> rat) list"
where
  "collect_cheapest pricing [] sp = Inr sp"
| "collect_cheapest pricing ((w, d, price) # bs) sp =
     (let key = w @ ''x'' @ d in
      case py_float price of None \<Rightarrow> Inl ValueError | Some price_val \<Rightarrow>
      if dict_has pricing key \<and> cheaper sp key price_val
      then collect_cheapest pricing bs (AList.update key price_val sp)
      else collect_cheapest pricing bs sp)"

text \<open>\<open>lockaway_map.get(key)\<close>; the entry \<open>"8x4": None\<close> reads like a missing key.\<close>

definition lockaway_map :: "string \<Rightarrow> string option" where
  "lockaway_map key =
     (if key = ''8x8'' then Some ''5x10'' else if key = ''8x12'' then Some ''10x10'' else None)"

fun collect_mapped ::
  "(string \<times> string \<times> string) list \<Rightarrow> (string \<times> rat) list \<Rightarrow> error + (string \<times> rat) list"
where
  "collect_mapped [] sp = Inr sp"
| "collect_mapped ((w, d, price) # bs) sp =
     (let key = w @ ''x'' @ d in
      case lockaway_map key of
        None \<Rightarrow> collect_mapped bs sp
      | Some mapped \<Rightarrow>
          (case py_float price of None \<Rightarrow> Inl ValueError | Some p \<Rightarrow>
           if cheaper sp mapped p then collect_mapped bs (AList.update mapped p sp)
           else collect_mapped bs sp))"

definition scrape_lockaway ::
  "env \<Rightarrow> string option \<Rightarrow> pattern list \<times> (error + pydict option)"
where
  "scrape_lockaway e url =
     (case fetch_url e url of
        Inl err \<Rightarrow> ([], Inl err)
      | Inr None \<Rightarrow> ([], Inr None)
      | Inr (Some html) \<Rightarrow>
          if html = [] then ([], Inr None)
          else
            let blocks = findall3 e LA_DimThenPrice html in
            ([LA_DimThenPrice],
             case collect_cheapest empty_pricing blocks [] of
               Inl err \<Rightarrow> Inl err
             | Inr sp1 \<Rightarrow>
                 (case collect_mapped blocks sp1 of
                    Inl err \<Rightarrow> Inl err
                  | Inr sp2 \<Rightarrow> Inr (Some (store_prices_known sp2 empty_pricing)))))"

text \<open>Honea Egypt writes every matching observation straight into \<open>pricing\<close>.\<close>

fun honea_store ::
  "(string \<times> string \<times> string) list \<Rightarrow> pydict \<Rightarrow> error + pydict"
where
  "honea_store [] pricing = Inr pricing"
| "honea_store ((w, d, price) # bs) pricing =
     (let key = w @ ''x'' @ d in
      if dict_has pricing key
      then (case py_float price of
              None \<Rightarrow> Inl ValueError
            | Some p \<Rightarrow> honea_store bs (AList.update key (PInt (py_round p)) pricing))
      else honea_store bs pricing)"

definition scrape_honea_egypt ::
  "env \<Rightarrow> string option \<Rightarrow> pattern list \<times> (error + pydict option)"
where
  "scrape_honea_egypt e url =
     (case fetch_url e url of
        Inl err \<Rightarrow> ([], Inl err)
      | Inr None \<Rightarrow> ([], Inr None)
      | Inr (Some html) \<Rightarrow>
          if html = [] then ([], Inr None)
          else
            let blocks = findall3 e DimThenPrice html in
            ([DimThenPrice],
             case honea_store blocks empty_pricing of
               Inl err \<Rightarrow> Inl err
             | Inr pricing \<Rightarrow> Inr (Some pricing)))"

definition scrape_montgomery ::
  "env \<Rightarrow> string option \<Rightarrow> pattern list \<times> (error + pydict option)"
where
  "scrape_montgomery e url =
     (case fetch_url e url of
        Inl err \<Rightarrow> ([], Inl err)
      | Inr None \<Rightarrow> ([], Inr None)
      | Inr (Some html) \<Rightarrow>
          if html = [] then ([], Inr None)
          else
            let blocks = findall3 e DimThenPrice html in
            ([DimThenPrice],
             case collect_cheapest empty_pricing blocks [] of
               Inl err \<Rightarrow> Inl err
             | Inr size_prices \<Rightarrow> Inr (Some (store_prices size_prices empty_pricing))))"

definition woodlands_map :: "string \<Rightarrow> string" where
  "woodlands_map key =
     (if key = ''12x10'' then ''10x10'' else if key = ''12x30'' then ''10x30'' else key)"

fun wl_collect ::
  "pydict \<Rightarrow> (string \<times> string \<times> string) list \<Rightarrow> (string \<times> rat) list \<Rightarrow>
   error + (string \<times> rat) list"
where
  "wl_collect pricing [] sp = Inr sp"
| "wl_collect pricing ((w, d, price) # bs) sp =
     (let key = w @ ''x'' @ d in
      case py_float price of None \<Rightarrow> Inl ValueError | Some price_val \<Rightarrow>
      let mapped = woodlands_map key in
      if dict_has pricing mapped \<and> cheaper sp mapped price_val
      then wl_collect pricing bs (AList.update mapped price_val sp)
      else wl_collect pricing bs sp)"

definition scrape_woodlands_sao ::
  "env \<Rightarrow> string option \<Rightarrow> pattern list \<times> (error + pydict option)"
where
  "scrape_woodlands_sao e url =
     (case fetch_url e url of
        Inl err \<Rightarrow> ([], Inl err)
      | Inr None \<Rightarrow> ([], Inr None)
      | Inr (Some html) \<Rightarrow>
          if html = [] then ([], Inr None)
          else
            let blocks = findall3 e DimThenPrice html in
            ([DimThenPrice],
             case wl_collect empty_pricing blocks [] of
               Inl err \<Rightarrow> Inl err
             | Inr size_prices \<Rightarrow> Inr (Some (store_prices size_prices empty_pricing))))"

section \<open>The run: \<open>main\<close>\<close>

datatype scraper = Lockaway | Public_Storage string | Honea_Egypt | Montgomery | Woodlands_Sao

record target =
  t_name :: string
  t_url :: "string option"
  t_scraper :: "scraper option"

text \<open>The \<open>lambda url: ...\<close> of each entry of \<open>scrape_targets\<close>.\<close>

fun run_scraper ::
  "env \<Rightarrow> scraper \<Rightarrow> string option \<Rightarrow> pattern list \<times> (error + pydict option)"
where
  "run_scraper e Lockaway url = scrape_lockaway e url"
| "run_scraper e (Public_Storage facility_name) url = scrape_public_storage e url facility_name"
| "run_scraper e Honea_Egypt url = scrape_honea_egypt e url"
| "run_scraper e Montgomery url = scrape_montgomery e url"
| "run_scraper e Woodlands_Sao url = scrape_woodlands_sao e url"

definition scrape_targets :: "target list" where
  "scrape_targets =
     [\<lparr>t_name = ''Lockaway Storage'',
       t_url = Some ''https://www.lockaway-storage.com/storage-units/texas/magnolia/lockaway-storage-1488-411002/'',
       t_scraper = Some Lockaway\<rparr>,
      \<lparr>t_name = ''Public Storage (FM 1488)'',
       t_url = Some ''https://www.publicstorage.com/self-storage-tx-magnolia/2360.html'',
       t_scraper = Some (Public_Storage ''Public Storage (FM 1488)'')\<rparr>,
      \<lparr>t_name = ''Public Storage (FM 2978)'',
       t_url = Some ''https://www.publicstorage.com/self-storage-tx-the-woodlands/5888.html'',
       t_scraper = Some (Public_Storage ''Public Storage (FM 2978)'')\<rparr>,
      \<lparr>t_name = ''SmartStop Self Storage'', t_url = None, t_scraper = None\<rparr>,
      \<lparr>t_name = ''Honea Egypt Self Storage'',
       t_url = Some ''https://www.honeaegyptselfstorage.com/find-storage.aspx?id=68'',
       t_scraper = Some Honea_Egypt\<rparr>,
      \<lparr>t_name = ''Montgomery Self Storage'',
       t_url = Some ''https://montgomeryss.com/locations/magnolia-tx/'',
       t_scraper = Some Montgomery\<rparr>,
      \<lparr>t_name = ''Woodlands Storage & Office'',
       t_url = Some ''https://www.woodlandssao.com/units'',
       t_scraper = Some Woodlands_Sao\<rparr>,
      \<lparr>t_name = ''Storage King USA'', t_url = None, t_scraper = None\<rparr>]"

text \<open>
  The file \<open>data.json\<close> when the run starts: absent, present but not JSON, or present
  with a JSON value.
\<close>

datatype store = Missing | Unparsable | Stored pyval

definition load_data :: "store \<Rightarrow> error + pyval" where
  "load_data st =
     (case st of
        Missing \<Rightarrow> Inr (PDict [(''lastUpdated'', PNone), (''competitors'', PList [])])
      | Unparsable \<Rightarrow> Inl JSONDecodeError
      | Stored v \<Rightarrow> Inr v)"

text \<open>\<open>for c in v\<close>: a list gives its items, a dictionary its keys, a string its characters.\<close>

fun py_iter :: "pyval \<Rightarrow> error + pyval list" where
  "py_iter (PList xs) = Inr xs"
| "py_iter (PDict kvs) = Inr (map (\<lambda>kv. PStr (fst kv)) kvs)"
| "py_iter (PStr s) = Inr (map (\<lambda>c. PStr [c]) s)"
| "py_iter v = Inl TypeError"

text \<open>
  \<open>existing[c["name"]] = c\<close> for each stored competitor. Only a dictionary can be
  subscripted with a string; a list or dictionary as name is unhashable. A name that is
  a number, a boolean or \<open>None\<close> is stored under a key no configured name (a string) is
  equal to, so the model leaves it out.
\<close>

fun build_existing :: "pyval list \<Rightarrow> (string \<times> pydict) list \<Rightarrow> error + (string \<times> pydict) list"
where
  "build_existing [] existing = Inr existing"
| "build_existing (c # cs) existing =
     (case c of
        PDict d \<Rightarrow>
          (case map_of d ''name'' of
             None \<Rightarrow> Inl KeyError
           | Some (PStr n) \<Rightarrow> build_existing cs (AList.update n d existing)
           | Some (PList xs) \<Rightarrow> Inl TypeError
           | Some (PDict kvs) \<Rightarrow> Inl TypeError
           | Some other \<Rightarrow> build_existing cs existing)
      | other \<Rightarrow> Inl TypeError)"

text \<open>
  \<open>old_data = existing.get(name, {})\<close> and
  \<open>old_pricing = old_data.get("pricing", {...five sizes: None...})\<close>
\<close>

definition old_pricing_of :: "(string \<times> pydict) list \<Rightarrow> string \<Rightarrow> pyval" where
  "old_pricing_of existing n =
     (let old_data = (case map_of existing n of None \<Rightarrow> [] | Some c \<Rightarrow> c)
      in dict_get old_data ''pricing'' (PDict empty_pricing))"

text \<open>
  A change entry holds what the message \<open>"  {name} {size}: ${old_val} -> ${new_val}"\<close>
  is formatted from. \<open>old_pricing.get\<close> exists only on a dictionary.
\<close>

type_synonym change = "string \<times> string \<times> pyval \<times> pyval"

fun detect_changes :: "string \<Rightarrow> pyval \<Rightarrow> pydict \<Rightarrow> string list \<Rightarrow> error + change list" where
  "detect_changes n old_pricing new_pricing [] = Inr []"
| "detect_changes n old_pricing new_pricing (sz # szs) =
     (case old_pricing of
        PDict old \<Rightarrow>
          (let old_val = dict_get old sz PNone;
               new_val = dict_get new_pricing sz PNone
           in case detect_changes n old_pricing new_pricing szs of
                Inl err \<Rightarrow> Inl err
              | Inr rest \<Rightarrow>
                  Inr (if py_ne old_val new_val then (n, sz, old_val, new_val) # rest else rest))
      | other \<Rightarrow> Inl AttributeError)"

text \<open>One pass of the loop over \<open>scrape_targets\<close>: the entry appended to
  \<open>updated_competitors\<close> and the entries appended to \<open>changes\<close>.\<close>

definition process_target ::
  "env \<Rightarrow> (string \<times> pydict) list \<Rightarrow> target \<Rightarrow> error + ((string \<times> pyval) \<times> change list)"
where
  "process_target e existing t =
     (let n = t_name t; old_pricing = old_pricing_of existing n in
      case t_scraper t of
        None \<Rightarrow> Inr ((n, old_pricing), [])
      | Some s \<Rightarrow>
          (case snd (run_scraper e s (t_url t)) of
             Inl err \<Rightarrow> Inl err
           | Inr None \<Rightarrow> Inr ((n, old_pricing), [])
           | Inr (Some new_pricing) \<Rightarrow>
               (case detect_changes n old_pricing new_pricing canonical_sizes of
                  Inl err \<Rightarrow> Inl err
                | Inr chs \<Rightarrow> Inr ((n, PDict new_pricing), chs))))"

fun process_targets ::
  "env \<Rightarrow> (string \<times> pydict) list \<Rightarrow> target list \<Rightarrow>
   error + ((string \<times> pyval) list \<times> change list)"
where
  "process_targets e existing [] = Inr ([], [])"
| "process_targets e existing (t # ts) =
     (case process_target e existing t of
        Inl err \<Rightarrow> Inl err
      | Inr (u, chs) \<Rightarrow>
          (case process_targets e existing ts of
             Inl err \<Rightarrow> Inl err
           | Inr (us, chs') \<Rightarrow> Inr (u # us, chs @ chs')))"

text \<open>The merge of lines 356 to 363: the stored entry with its pricing replaced, or a
  new entry of name and pricing.\<close>

definition merge_entry :: "(string \<times> pydict) list \<Rightarrow> string \<times> pyval \<Rightarrow> pydict" where
  "merge_entry existing updated =
     (case map_of existing (fst updated) of
        Some c \<Rightarrow> AList.update ''pricing'' (snd updated) c
      | None \<Rightarrow> [(''name'', PStr (fst updated)), (''pricing'', snd updated)])"

text \<open>\<open>existing\<close> as \<open>main\<close> builds it from the loaded data.\<close>

definition load_existing :: "pyval \<Rightarrow> error + (string \<times> pydict) list" where
  "load_existing data =
     (case data of
        PDict dd \<Rightarrow>
          (case py_iter (dict_get dd ''competitors'' (PList [])) of
             Inl err \<Rightarrow> Inl err
           | Inr cs \<Rightarrow> build_existing cs [])
      | other \<Rightarrow> Inl AttributeError)"

text \<open>
  \<open>main\<close>, for the targets given: the value written to \<open>data.json\<close> and the list
  \<open>changes\<close>, or the exception that ends the run. \<open>now\<close> is the formatted time.
\<close>

definition run :: "target list \<Rightarrow> env \<Rightarrow> string \<Rightarrow> store \<Rightarrow> error + (pyval \<times> change list)" where
  "run targets e now st =
     (case load_data st of
        Inl err \<Rightarrow> Inl err
      | Inr data \<Rightarrow>
          (case load_existing data of
             Inl err \<Rightarrow> Inl err
           | Inr existing \<Rightarrow>
               (case process_targets e existing targets of
                  Inl err \<Rightarrow> Inl err
                | Inr (updated_competitors, changes) \<Rightarrow>
                    (case data of
                       PDict dd \<Rightarrow>
                         Inr (PDict (AList.update ''competitors''
                                (PList (map (\<lambda>u. PDict (merge_entry existing u)) updated_competitors))
                                (AList.update ''lastUpdated'' (PStr now) dd)),
                              changes)
                     | other \<Rightarrow> Inl TypeError))))"

definition main :: "env \<Rightarrow> string \<Rightarrow> store \<Rightarrow> error + (pyval \<times> change list)" where
  "main e now st = run scrape_targets e now st"

section \<open>Observations on a run\<close>

definition run_changes :: "error + (pyval \<times> change list) \<Rightarrow> change list option" where
  "run_changes r = (case r of Inl err \<Rightarrow> None | Inr (d, chs) \<Rightarrow> Some chs)"

definition competitors_of :: "pyval \<Rightarrow> pyval list" where
  "competitors_of d =
     (case d of
        PDict dd \<Rightarrow> (case map_of dd ''competitors'' of Some (PList cs) \<Rightarrow> cs | other \<Rightarrow> [])
      | other \<Rightarrow> [])"

definition entry_name :: "pyval \<Rightarrow> pyval option" where
  "entry_name c = (case c of PDict d \<Rightarrow> map_of d ''name'' | other \<Rightarrow> None)"

definition entry_pricing :: "pyval \<Rightarrow> pyval option" where
  "entry_pricing c = (case c of PDict d \<Rightarrow> map_of d ''pricing'' | other \<Rightarrow> None)"

text \<open>The names of the competitors written, when the run ends normally.\<close>

definition run_names :: "error + (pyval \<times> change list) \<Rightarrow> pyval option list option" where
  "run_names r =
     (case r of
        Inl err \<Rightarrow> None
      | Inr (d, chs) \<Rightarrow> Some (map entry_name (competitors_of d)))"

text \<open>The pricing written for the \<open>i\<close>-th competitor, when the run ends normally.\<close>

definition run_pricing :: "error + (pyval \<times> change list) \<Rightarrow> nat \<Rightarrow> pyval option" where
  "run_pricing r i =
     (case r of
        Inl err \<Rightarrow> None
      | Inr (d, chs) \<Rightarrow>
          if i < length (competitors_of d) then entry_pricing (competitors_of d ! i) else None)"

text \<open>A PricingTable: exactly the five canonical keys, each \<open>None\<close> or an integer
  that is not negative.\<close>

fun is_price :: "pyval \<Rightarrow> bool" where
  "is_price PNone = True"
| "is_price (PInt n) = (0 \<le> n)"
| "is_price v = False"

definition wf_pricing :: "pyval \<Rightarrow> bool" where
  "wf_pricing p =
     (case p of
        PDict kv \<Rightarrow>
          distinct (map fst kv) \<and> set (map fst kv) = set canonical_sizes \<and>
          list_all is_price (map snd kv)
      | other \<Rightarrow> False)"

text \<open>A stored competitor whose pricing, when it has one, is a PricingTable.\<close>

definition wf_stored :: "pyval \<Rightarrow> bool" where
  "wf_stored c =
     (case c of
        PDict d \<Rightarrow> (case map_of d ''pricing'' of None \<Rightarrow> True | Some p \<Rightarrow> wf_pricing p)
      | other \<Rightarrow> True)"

text \<open>A written competitor that has a pricing, and it is a PricingTable.\<close>

definition wf_written :: "pyval \<Rightarrow> bool" where
  "wf_written c = (case entry_pricing c of None \<Rightarrow> False | Some p \<Rightarrow> wf_pricing p)"

section \<open>Example environments and stores\<close>

text \<open>Every URL gives the same answer and every pattern the same matches.\<close>

definition const_env ::
  "string option \<Rightarrow> (string \<times> string \<times> string) list \<Rightarrow> string list \<Rightarrow> env"
where
  "const_env page blocks prices =
     \<lparr>fetch = (\<lambda>u. page), findall3 = (\<lambda>p html. blocks), findall1 = (\<lambda>p html. prices)\<rparr>"

text \<open>Only one site answers; every other fetch fails.\<close>

definition single_site_env :: "string \<Rightarrow> (string \<times> string \<times> string) list \<Rightarrow> env" where
  "single_site_env site blocks =
     \<lparr>fetch = (\<lambda>u. if u = site then Some ''<html>units</html>'' else None),
      findall3 = (\<lambda>p html. blocks), findall1 = (\<lambda>p html. [])\<rparr>"

definition lockaway_url :: string where
  "lockaway_url =
     ''https://www.lockaway-storage.com/storage-units/texas/magnolia/lockaway-storage-1488-411002/''"

definition public_storage_url :: string where
  "public_storage_url = ''https://www.publicstorage.com/self-storage-tx-magnolia/2360.html''"

text \<open>Stored data with one configured competitor (with an address) and one competitor
  that \<open>scrape_targets\<close> does not list.\<close>

definition lockaway_entry :: pydict where
  "lockaway_entry =
     [(''name'', PStr ''Lockaway Storage''), (''address'', PStr ''1 Main St''),
      (''pricing'', PDict [(''5x10'', PInt 59), (''10x10'', PNone), (''10x15'', PInt 89),
                           (''10x20'', PNone), (''10x30'', PNone)])]"

definition magnolia_entry :: pydict where
  "magnolia_entry = [(''name'', PStr ''Magnolia Storage''), (''phone'', PStr ''555-0100'')]"

definition example_data :: pyval where
  "example_data =
     PDict [(''lastUpdated'', PNone),
            (''competitors'', PList [PDict lockaway_entry, PDict magnolia_entry])]"

definition example_store :: store where
  "example_store = Stored example_data"

text \<open>A store whose entry for SmartStop, a competitor that is never scraped, holds a
  pricing object that is not a PricingTable.\<close>

definition smartstop_entry :: pydict where
  "smartstop_entry =
     [(''name'', PStr ''SmartStop Self Storage''),
      (''pricing'', PDict [(''5x10'', PInt (- 7)), (''9x9'', PStr ''cheap'')])]"

definition smartstop_store :: store where
  "smartstop_store =
     Stored (PDict [(''lastUpdated'', PNone), (''competitors'', PList [PDict smartstop_entry])])"

section \<open>Invariant of the price collection\<close>

text \<open>Every collected price is filed under a canonical size and is not negative.\<close>

definition sp_ok :: "(string \<times> rat) list \<Rightarrow> bool" where
  "sp_ok sp = (\<forall>x \<in> set sp. fst x \<in> set canonical_sizes \<and> 0 \<le> snd x)"

section \<open>Conversions\<close>

lemma floor_half_rat: "\<lfloor>(1::rat) / 2\<rfloor> = 0"
  by (simp add: floor_eq_iff)

lemma py_round_half: "py_round (of_int n + 1 / 2) = (if even n then n else n + 1)"
  by (simp add: py_round_def Let_def floor_half_rat)

lemma py_float_nonneg: "py_float s = Some p \<Longrightarrow> 0 \<le> p"
  by (auto simp: py_float_def Let_def split: list.splits if_splits)

lemma py_round_nonneg: "0 \<le> x \<Longrightarrow> 0 \<le> py_round x"
  by (auto simp: py_round_def Let_def)

section \<open>Dictionaries\<close>

lemma dict_has_iff: "dict_has d k \<longleftrightarrow> k \<in> fst ` set d"
proof -
  have "dict_has d k \<longleftrightarrow> map_of d k \<noteq> None"
    by (simp add: dict_has_def split: option.splits)
  then show ?thesis by (simp add: map_of_eq_None_iff)
qed

lemma set_update_subset: "set (AList.update k v al) \<subseteq> insert (k, v) (set al)"
  by (induction al) auto

lemma py_ne_same: "\<not> py_ne v v"
  by (simp add: py_ne_def split: option.splits)

section \<open>What a scraper returns is a PricingTable\<close>

lemma wf_pricing_empty: "wf_pricing (PDict empty_pricing)"
  by (simp add: wf_pricing_def empty_pricing_def canonical_sizes_def)

lemma keys_empty_pricing: "fst ` set empty_pricing = set canonical_sizes"
  by (simp add: empty_pricing_def canonical_sizes_def)

lemma wf_pricing_update:
  assumes "wf_pricing (PDict pr)" "k \<in> fst ` set pr" "is_price v"
  shows "wf_pricing (PDict (AList.update k v pr))"
proof -
  from assms(1) have d: "distinct (map fst pr)" and s: "set (map fst pr) = set canonical_sizes"
    and p: "list_all is_price (map snd pr)"
    by (simp_all add: wf_pricing_def)
  have keys: "map fst (AList.update k v pr) = map fst pr"
    using assms(2) by (simp add: update_keys)
  have "is_price (snd x)" if "x \<in> set (AList.update k v pr)" for x
  proof -
    from that set_update_subset[of k v pr] have "x = (k, v) \<or> x \<in> set pr" by auto
    with p assms(3) show ?thesis by (auto simp: list_all_iff)
  qed
  then have "list_all is_price (map snd (AList.update k v pr))"
    by (simp add: list_all_iff)
  with d s keys show ?thesis by (simp add: wf_pricing_def)
qed

lemma wf_pricing_keys: "wf_pricing (PDict pr) \<Longrightarrow> fst ` set pr = set canonical_sizes"
  by (simp add: wf_pricing_def)

lemma sp_ok_update: "sp_ok sp \<Longrightarrow> k \<in> set canonical_sizes \<Longrightarrow> 0 \<le> p \<Longrightarrow> sp_ok (AList.update k p sp)"
  using set_update_subset[of k p sp] by (auto simp: sp_ok_def)

lemma store_prices_wf:
  "sp_ok sp \<Longrightarrow> wf_pricing (PDict pr) \<Longrightarrow> wf_pricing (PDict (store_prices sp pr))"
proof (induction sp arbitrary: pr)
  case Nil
  then show ?case by simp
next
  case (Cons x sp)
  obtain k p where x: "x = (k, p)" by (cases x)
  from Cons.prems x have k: "k \<in> set canonical_sizes" and p: "0 \<le> p" and rest: "sp_ok sp"
    by (auto simp: sp_ok_def)
  from k Cons.prems(2) have "k \<in> fst ` set pr" by (simp add: wf_pricing_keys)
  with Cons.prems(2) p have "wf_pricing (PDict (AList.update k (PInt (py_round p)) pr))"
    by (intro wf_pricing_update) (simp_all add: py_round_nonneg)
  from Cons.IH[OF rest this] x show ?case by simp
qed

lemma store_prices_known_wf:
  "\<forall>x \<in> set sp. 0 \<le> snd x \<Longrightarrow> wf_pricing (PDict pr) \<Longrightarrow>
   wf_pricing (PDict (store_prices_known sp pr))"
proof (induction sp arbitrary: pr)
  case Nil
  then show ?case by simp
next
  case (Cons x sp)
  obtain k p where x: "x = (k, p)" by (cases x)
  from Cons.prems x have p: "0 \<le> p" and rest: "\<forall>x \<in> set sp. 0 \<le> snd x" by auto
  show ?case
  proof (cases "dict_has pr k")
    case True
    then have "k \<in> fst ` set pr" by (simp add: dict_has_iff)
    with Cons.prems(2) p have "wf_pricing (PDict (AList.update k (PInt (py_round p)) pr))"
      by (intro wf_pricing_update) (simp_all add: py_round_nonneg)
    from Cons.IH[OF rest this] x True show ?thesis by simp
  next
    case False
    with Cons.IH[OF rest Cons.prems(2)] x show ?thesis by simp
  qed
qed

lemma size_map_canonical: "size_map wd = Some m \<Longrightarrow> m \<in> set canonical_sizes"
  by (cases wd) (auto simp: canonical_sizes_def split: if_splits)

lemma lockaway_map_canonical: "lockaway_map k = Some m \<Longrightarrow> m \<in> set canonical_sizes"
  by (auto simp: lockaway_map_def canonical_sizes_def split: if_splits)

lemma ps_collect_ok: "ps_collect bs sp = Inr sp' \<Longrightarrow> sp_ok sp \<Longrightarrow> sp_ok sp'"
proof (induction bs arbitrary: sp)
  case Nil
  then show ?case by simp
next
  case (Cons b bs)
  obtain w d price where b: "b = (w, d, price)" by (cases b)
  from Cons.prems(1) b obtain wi di p where
    wi: "py_int w = Some wi" and di: "py_int d = Some di" and p: "py_float price = Some p"
    by (auto split: option.splits)
  show ?case
  proof (cases "size_map (wi, di)")
    case None
    with Cons.prems(1) b wi di p have "ps_collect bs sp = Inr sp'" by simp
    from Cons.IH[OF this Cons.prems(2)] show ?thesis .
  next
    case (Some m)
    show ?thesis
    proof (cases "cheaper sp m p")
      case True
      from Cons.prems(2) size_map_canonical[OF Some] py_float_nonneg[OF p]
      have ok: "sp_ok (AList.update m p sp)" by (intro sp_ok_update)
      from Cons.prems(1) b wi di p Some True
      have "ps_collect bs (AList.update m p sp) = Inr sp'" by simp
      from Cons.IH[OF this ok] show ?thesis .
    next
      case False
      with Cons.prems(1) b wi di p Some have "ps_collect bs sp = Inr sp'" by simp
      from Cons.IH[OF this Cons.prems(2)] show ?thesis .
    qed
  qed
qed

lemma collect_cheapest_ok:
  "collect_cheapest empty_pricing bs sp = Inr sp' \<Longrightarrow> sp_ok sp \<Longrightarrow> sp_ok sp'"
proof (induction bs arbitrary: sp)
  case Nil
  then show ?case by simp
next
  case (Cons b bs)
  obtain w d price where b: "b = (w, d, price)" by (cases b)
  from Cons.prems(1) b obtain p where p: "py_float price = Some p"
    by (auto simp: Let_def split: option.splits)
  show ?case
  proof (cases "dict_has empty_pricing (w @ ''x'' @ d) \<and> cheaper sp (w @ ''x'' @ d) p")
    case True
    then have "w @ ''x'' @ d \<in> set canonical_sizes"
      by (simp add: dict_has_iff keys_empty_pricing)
    with Cons.prems(2) py_float_nonneg[OF p]
    have ok: "sp_ok (AList.update (w @ ''x'' @ d) p sp)" by (intro sp_ok_update)
    from Cons.prems(1) b p True
    have "collect_cheapest empty_pricing bs (AList.update (w @ ''x'' @ d) p sp) = Inr sp'"
      by (simp add: Let_def)
    from Cons.IH[OF this ok] show ?thesis .
  next
    case False
    with Cons.prems(1) b p have "collect_cheapest empty_pricing bs sp = Inr sp'"
      by (auto simp: Let_def)
    from Cons.IH[OF this Cons.prems(2)] show ?thesis .
  qed
qed

lemma collect_mapped_ok: "collect_mapped bs sp = Inr sp' \<Longrightarrow> sp_ok sp \<Longrightarrow> sp_ok sp'"
proof (induction bs arbitrary: sp)
  case Nil
  then show ?case by simp
next
  case (Cons b bs)
  obtain w d price where b: "b = (w, d, price)" by (cases b)
  show ?case
  proof (cases "lockaway_map (w @ ''x'' @ d)")
    case None
    with Cons.prems(1) b have "collect_mapped bs sp = Inr sp'" by (simp add: Let_def)
    from Cons.IH[OF this Cons.prems(2)] show ?thesis .
  next
    case (Some m)
    with Cons.prems(1) b obtain p where p: "py_float price = Some p"
      by (auto simp: Let_def split: option.splits)
    show ?thesis
    proof (cases "cheaper sp m p")
      case True
      from Cons.prems(2) lockaway_map_canonical[OF Some] py_float_nonneg[OF p]
      have ok: "sp_ok (AList.update m p sp)" by (intro sp_ok_update)
      from Cons.prems(1) b p Some True
      have "collect_mapped bs (AList.update m p sp) = Inr sp'" by (simp add: Let_def)
      from Cons.IH[OF this ok] show ?thesis .
    next
      case False
      with Cons.prems(1) b p Some have "collect_mapped bs sp = Inr sp'" by (simp add: Let_def)
      from Cons.IH[OF this Cons.prems(2)] show ?thesis .
    qed
  qed
qed

lemma wl_collect_ok:
  "wl_collect empty_pricing bs sp = Inr sp' \<Longrightarrow> sp_ok sp \<Longrightarrow> sp_ok sp'"
proof (induction bs arbitrary: sp)
  case Nil
  then show ?case by simp
next
  case (Cons b bs)
  obtain w d price where b: "b = (w, d, price)" by (cases b)
  from Cons.prems(1) b obtain p where p: "py_float price = Some p"
    by (auto simp: Let_def split: option.splits)
  let ?m = "woodlands_map (w @ ''x'' @ d)"
  show ?case
  proof (cases "dict_has empty_pricing ?m \<and> cheaper sp ?m p")
    case True
    then have "?m \<in> set canonical_sizes"
      by (simp add: dict_has_iff keys_empty_pricing)
    with Cons.prems(2) py_float_nonneg[OF p]
    have ok: "sp_ok (AList.update ?m p sp)" by (intro sp_ok_update)
    from Cons.prems(1) b p True
    have "wl_collect empty_pricing bs (AList.update ?m p sp) = Inr sp'"
      by (simp add: Let_def)
    from Cons.IH[OF this ok] show ?thesis .
  next
    case False
    with Cons.prems(1) b p have "wl_collect empty_pricing bs sp = Inr sp'"
      by (auto simp: Let_def)
    from Cons.IH[OF this Cons.prems(2)] show ?thesis .
  qed
qed

lemma honea_store_wf:
  "honea_store bs pr = Inr pr' \<Longrightarrow> wf_pricing (PDict pr) \<Longrightarrow> wf_pricing (PDict pr')"
proof (induction bs arbitrary: pr)
  case Nil
  then show ?case by simp
next
  case (Cons b bs)
  obtain w d price where b: "b = (w, d, price)" by (cases b)
  show ?case
  proof (cases "dict_has pr (w @ ''x'' @ d)")
    case True
    with Cons.prems(1) b obtain p where p: "py_float price = Some p"
      by (auto simp: Let_def split: option.splits)
    from True have "w @ ''x'' @ d \<in> fst ` set pr" by (simp add: dict_has_iff)
    with Cons.prems(2) py_float_nonneg[OF p]
    have ok: "wf_pricing (PDict (AList.update (w @ ''x'' @ d) (PInt (py_round p)) pr))"
      by (intro wf_pricing_update) (simp_all add: py_round_nonneg)
    from Cons.prems(1) b p True
    have "honea_store bs (AList.update (w @ ''x'' @ d) (PInt (py_round p)) pr) = Inr pr'"
      by (simp add: Let_def)
    from Cons.IH[OF this ok] show ?thesis .
  next
    case False
    with Cons.prems(1) b have "honea_store bs pr = Inr pr'" by (simp add: Let_def)
    from Cons.IH[OF this Cons.prems(2)] show ?thesis .
  qed
qed

lemma sp_ok_Nil: "sp_ok []" by (simp add: sp_ok_def)

lemma ps_finish_wf:
  assumes "ps_finish bs = Inr (Some P)"
  shows "wf_pricing (PDict P)"
proof -
  from assms obtain sp where c: "ps_collect bs [] = Inr sp" and P: "P = store_prices sp empty_pricing"
    by (auto simp: ps_finish_def split: sum.splits)
  from store_prices_wf[OF ps_collect_ok[OF c sp_ok_Nil] wf_pricing_empty] P show ?thesis by simp
qed

lemma scrape_public_storage_wf:
  "snd (scrape_public_storage e url fac) = Inr (Some P) \<Longrightarrow> wf_pricing (PDict P)"
proof -
  assume a: "snd (scrape_public_storage e url fac) = Inr (Some P)"
  then have "P = empty_pricing \<or> (\<exists>bs. ps_finish bs = Inr (Some P))"
    by (auto simp: scrape_public_storage_def Let_def split: sum.splits option.splits if_splits)
  then show ?thesis using wf_pricing_empty ps_finish_wf by auto
qed

lemma scrape_lockaway_wf:
  "snd (scrape_lockaway e url) = Inr (Some P) \<Longrightarrow> wf_pricing (PDict P)"
proof -
  assume a: "snd (scrape_lockaway e url) = Inr (Some P)"
  then obtain bs sp1 sp2 where 1: "collect_cheapest empty_pricing bs [] = Inr sp1"
    and 2: "collect_mapped bs sp1 = Inr sp2" and P: "P = store_prices_known sp2 empty_pricing"
    by (auto simp: scrape_lockaway_def Let_def split: sum.splits option.splits if_splits)
  from collect_mapped_ok[OF 2 collect_cheapest_ok[OF 1 sp_ok_Nil]] have "sp_ok sp2" .
  then have "\<forall>x \<in> set sp2. 0 \<le> snd x" by (simp add: sp_ok_def)
  from store_prices_known_wf[OF this wf_pricing_empty] P show ?thesis by simp
qed

lemma scrape_honea_egypt_wf:
  "snd (scrape_honea_egypt e url) = Inr (Some P) \<Longrightarrow> wf_pricing (PDict P)"
proof -
  assume a: "snd (scrape_honea_egypt e url) = Inr (Some P)"
  then obtain bs where "honea_store bs empty_pricing = Inr P"
    by (auto simp: scrape_honea_egypt_def Let_def split: sum.splits option.splits if_splits)
  from honea_store_wf[OF this wf_pricing_empty] show ?thesis .
qed

lemma scrape_montgomery_wf:
  "snd (scrape_montgomery e url) = Inr (Some P) \<Longrightarrow> wf_pricing (PDict P)"
proof -
  assume a: "snd (scrape_montgomery e url) = Inr (Some P)"
  then obtain bs sp where c: "collect_cheapest empty_pricing bs [] = Inr sp"
    and P: "P = store_prices sp empty_pricing"
    by (auto simp: scrape_montgomery_def Let_def split: sum.splits option.splits if_splits)
  from store_prices_wf[OF collect_cheapest_ok[OF c sp_ok_Nil] wf_pricing_empty] P
  show ?thesis by simp
qed

lemma scrape_woodlands_sao_wf:
  "snd (scrape_woodlands_sao e url) = Inr (Some P) \<Longrightarrow> wf_pricing (PDict P)"
proof -
  assume a: "snd (scrape_woodlands_sao e url) = Inr (Some P)"
  then obtain bs sp where c: "wl_collect empty_pricing bs [] = Inr sp"
    and P: "P = store_prices sp empty_pricing"
    by (auto simp: scrape_woodlands_sao_def Let_def split: sum.splits option.splits if_splits)
  from store_prices_wf[OF wl_collect_ok[OF c sp_ok_Nil] wf_pricing_empty] P
  show ?thesis by simp
qed

lemma run_scraper_wf: "snd (run_scraper e s url) = Inr (Some P) \<Longrightarrow> wf_pricing (PDict P)"
  by (cases s)
     (auto dest: scrape_public_storage_wf scrape_lockaway_wf scrape_honea_egypt_wf
        scrape_montgomery_wf scrape_woodlands_sao_wf)

section \<open>The loop over the targets\<close>


lemma process_target_name: "process_target e ex t = Inr (u, chs) \<Longrightarrow> fst u = t_name t"
  by (auto simp: process_target_def Let_def split: option.splits sum.splits)



lemma process_targets_length:
  "process_targets e ex ts = Inr (us, chs) \<Longrightarrow> length us = length ts"
  by (induction ts arbitrary: us chs) (auto split: sum.splits prod.splits)

lemma process_targets_nth:
  "process_targets e ex ts = Inr (us, chs) \<Longrightarrow> i < length ts \<Longrightarrow>
   \<exists>ch. process_target e ex (ts ! i) = Inr (us ! i, ch) \<and> set ch \<subseteq> set chs"
proof (induction ts arbitrary: us chs i)
  case Nil
  then show ?case by simp
next
  case (Cons t ts)
  from Cons.prems(1) obtain u ch us' chs' where
    t: "process_target e ex t = Inr (u, ch)" and
    r: "process_targets e ex ts = Inr (us', chs')" and
    e: "us = u # us'" "chs = ch @ chs'"
    by (auto split: sum.splits prod.splits)
  show ?case
  proof (cases i)
    case 0
    with t e show ?thesis by auto
  next
    case (Suc j)
    with Cons.prems(2) have "j < length ts" by simp
    from Cons.IH[OF r this] Suc e show ?thesis by auto
  qed
qed


lemma process_targets_names:
  "process_targets e ex ts = Inr (us, chs) \<Longrightarrow> map fst us = map t_name ts"
  by (induction ts arbitrary: us chs)
     (auto split: sum.splits prod.splits dest: process_target_name)

lemma process_targets_mem:
  "process_targets e ex ts = Inr (us, chs) \<Longrightarrow> u \<in> set us \<Longrightarrow>
   \<exists>t \<in> set ts. \<exists>ch. process_target e ex t = Inr (u, ch)"
proof (induction ts arbitrary: us chs)
  case Nil
  then show ?case by simp
next
  case (Cons t ts)
  from Cons.prems(1) obtain u' ch us' chs' where
    t: "process_target e ex t = Inr (u', ch)" and
    r: "process_targets e ex ts = Inr (us', chs')" and
    e: "us = u' # us'"
    by (auto split: sum.splits prod.splits)
  from Cons.prems(2) e consider "u = u'" | "u \<in> set us'" by auto
  then show ?case
  proof cases
    case 1
    with t show ?thesis by auto
  next
    case 2
    from Cons.IH[OF r 2] show ?thesis by auto
  qed
qed

lemma detect_changes_dict: "\<exists>chs. detect_changes n (PDict old) new szs = Inr chs"
  by (induction szs) (auto simp: Let_def)

lemma process_target_error:
  assumes "process_target e ex t = Inl err" "\<exists>old. old_pricing_of ex (t_name t) = PDict old"
  shows "\<exists>s. t_scraper t = Some s \<and> snd (run_scraper e s (t_url t)) = Inl err"
proof -
  from assms(2) obtain old where old: "old_pricing_of ex (t_name t) = PDict old" by blast
  show ?thesis
  proof (cases "t_scraper t")
    case None
    with assms(1) show ?thesis by (simp add: process_target_def Let_def)
  next
    case (Some s)
    show ?thesis
    proof (cases "snd (run_scraper e s (t_url t))")
      case (Inl err')
      with assms(1) Some show ?thesis by (simp add: process_target_def Let_def)
    next
      case (Inr r)
      show ?thesis
      proof (cases r)
        case None
        with assms(1) Some Inr show ?thesis by (simp add: process_target_def Let_def)
      next
        case (Some new)
        from detect_changes_dict[of "t_name t" old new canonical_sizes] obtain chs where
          "detect_changes (t_name t) (PDict old) new canonical_sizes = Inr chs" by blast
        with assms(1) \<open>t_scraper t = Some s\<close> Inr Some old show ?thesis
          by (simp add: process_target_def Let_def)
      qed
    qed
  qed
qed

lemma process_targets_error:
  "process_targets e ex ts = Inl err \<Longrightarrow> \<exists>t \<in> set ts. process_target e ex t = Inl err"
  by (induction ts) (auto split: sum.splits prod.splits)

lemma detect_changes_same: "detect_changes n (PDict p) p szs = Inr []"
  by (induction szs) (simp_all add: py_ne_same Let_def)

lemma process_target_again:
  assumes "process_target e ex t = Inr (u, ch)" "old_pricing_of ex' (t_name t) = snd u"
  shows "process_target e ex' t = Inr (u, [])"
  using assms
  by (auto simp: process_target_def Let_def detect_changes_same split: option.splits sum.splits)

lemma process_targets_again:
  assumes "process_targets e ex ts = Inr (us, chs)" "\<forall>u \<in> set us. old_pricing_of ex' (fst u) = snd u"
  shows "process_targets e ex' ts = Inr (us, [])"
  using assms
proof (induction ts arbitrary: us chs)
  case Nil
  then show ?case by simp
next
  case (Cons t ts)
  from Cons.prems(1) obtain u ch us' chs' where
    t: "process_target e ex t = Inr (u, ch)" and
    r: "process_targets e ex ts = Inr (us', chs')" and
    e: "us = u # us'" "chs = ch @ chs'"
    by (auto split: sum.splits prod.splits)
  have "old_pricing_of ex' (t_name t) = snd u"
    using Cons.prems(2) e process_target_name[OF t] by auto
  from process_target_again[OF t this]
  have 1: "process_target e ex' t = Inr (u, [])" .
  have 2: "process_targets e ex' ts = Inr (us', [])"
    using Cons.IH[OF r] Cons.prems(2) e by simp
  from 1 2 e show ?case by simp
qed

lemma process_target_wf:
  assumes "process_target e ex t = Inr (u, ch)" "wf_pricing (old_pricing_of ex (t_name t))"
  shows "wf_pricing (snd u)"
  using assms
  by (auto simp: process_target_def Let_def split: option.splits sum.splits
      dest: run_scraper_wf)

lemma process_target_pricing:
  assumes "process_target e ex t = Inr (u, ch)"
  shows "wf_pricing (snd u) \<or> snd u = old_pricing_of ex (t_name t)"
  using assms
  by (auto simp: process_target_def Let_def split: option.splits sum.splits
      dest: run_scraper_wf)

section \<open>The stored competitors and the merge\<close>

lemma build_existing_inv:
  assumes "build_existing cs acc = Inr ex" "map_of ex n = Some c"
  shows "map_of acc n = Some c \<or> (PDict c \<in> set cs \<and> map_of c ''name'' = Some (PStr n))"
  using assms
proof (induction cs arbitrary: acc)
  case Nil
  then show ?case by simp
next
  case (Cons x cs)
  show ?case
  proof (cases x)
    case (PDict d)
    show ?thesis
    proof (cases "map_of d ''name''")
      case None
      with Cons.prems PDict show ?thesis by simp
    next
      case (Some v)
      show ?thesis
      proof (cases v)
        case (PStr m)
        with Cons.prems PDict Some
        have "build_existing cs (AList.update m d acc) = Inr ex" by simp
        from Cons.IH[OF this Cons.prems(2)] PDict Some PStr show ?thesis
          by (auto simp: update_conv' split: if_splits)
      qed (use Cons.prems PDict Some Cons.IH[of acc] in auto)
    qed
  qed (use Cons.prems in auto)
qed

lemma load_existing_inv:
  assumes "load_existing data = Inr ex" "map_of ex n = Some c"
  shows "PDict c \<in> set (competitors_of data) \<and> map_of c ''name'' = Some (PStr n)"
proof -
  from assms(1) obtain dd cs where d: "data = PDict dd"
    and it: "py_iter (dict_get dd ''competitors'' (PList [])) = Inr cs"
    and be: "build_existing cs [] = Inr ex"
    by (auto simp: load_existing_def split: pyval.splits sum.splits)
  from build_existing_inv[OF be assms(2)]
  have mem: "PDict c \<in> set cs" and nm: "map_of c ''name'' = Some (PStr n)" by auto
  have "PDict c \<in> set (competitors_of data)"
  proof (cases "dict_get dd ''competitors'' (PList [])")
    case (PList xs)
    with it mem d show ?thesis
      by (auto simp: competitors_of_def dict_get_def split: option.splits)
  next
    case (PDict kvs)
    with it mem show ?thesis by auto
  next
    case (PStr s)
    with it mem show ?thesis by auto
  qed (use it in auto)
  with nm show ?thesis by simp
qed

lemma merge_entry_name:
  assumes "\<And>c. map_of ex (fst u) = Some c \<Longrightarrow> map_of c ''name'' = Some (PStr (fst u))"
  shows "map_of (merge_entry ex u) ''name'' = Some (PStr (fst u))"
  using assms by (auto simp: merge_entry_def update_conv' split: option.splits)

lemma merge_entry_pricing: "map_of (merge_entry ex u) ''pricing'' = Some (snd u)"
  by (simp add: merge_entry_def update_conv' split: option.splits)

lemma build_existing_lookup:
  assumes "\<forall>x \<in> set ds. map_of (snd x) ''name'' = Some (PStr (fst x))" "distinct (map fst ds)"
  shows "\<exists>ex'. build_existing (map (\<lambda>x. PDict (snd x)) ds) acc = Inr ex' \<and>
           (\<forall>x \<in> set ds. map_of ex' (fst x) = Some (snd x)) \<and>
           (\<forall>n. n \<notin> fst ` set ds \<longrightarrow> map_of ex' n = map_of acc n)"
  using assms
proof (induction ds arbitrary: acc)
  case Nil
  then show ?case by simp
next
  case (Cons x ds)
  from Cons.prems have nm: "map_of (snd x) ''name'' = Some (PStr (fst x))"
    and rest: "\<forall>y \<in> set ds. map_of (snd y) ''name'' = Some (PStr (fst y))"
    and dis: "distinct (map fst ds)" and notin: "fst x \<notin> fst ` set ds"
    by auto
  from Cons.IH[OF rest dis, of "AList.update (fst x) (snd x) acc"]
  obtain ex' where
    be: "build_existing (map (\<lambda>x. PDict (snd x)) ds) (AList.update (fst x) (snd x) acc) = Inr ex'"
    and l1: "\<forall>y \<in> set ds. map_of ex' (fst y) = Some (snd y)"
    and l2: "\<forall>n. n \<notin> fst ` set ds \<longrightarrow> map_of ex' n = map_of (AList.update (fst x) (snd x) acc) n"
    by blast
  have "build_existing (map (\<lambda>x. PDict (snd x)) (x # ds)) acc = Inr ex'"
    using be nm by simp
  moreover have "map_of ex' (fst x) = Some (snd x)"
    using l2 notin by (simp add: update_conv')
  moreover have "\<forall>n. n \<notin> fst ` set (x # ds) \<longrightarrow> map_of ex' n = map_of acc n"
    using l2 by (simp add: update_conv')
  ultimately show ?case using l1 by auto
qed

lemma old_pricing_wf:
  assumes ex: "load_existing data = Inr ex"
    and st: "list_all wf_stored (competitors_of data)"
  shows "wf_pricing (old_pricing_of ex n)"
proof (cases "map_of ex n")
  case None
  then show ?thesis by (simp add: old_pricing_of_def dict_get_def wf_pricing_empty)
next
  case (Some c)
  from load_existing_inv[OF ex Some] st have "wf_stored (PDict c)"
    by (auto simp: list_all_iff)
  with Some show ?thesis
    by (auto simp: old_pricing_of_def dict_get_def wf_stored_def wf_pricing_empty
        split: option.splits)
qed

lemma old_pricing_of_Nil: "old_pricing_of [] n = PDict empty_pricing"
  by (simp add: old_pricing_of_def dict_get_def)

lemma competitors_of_written:
  "competitors_of (PDict (AList.update ''competitors'' (PList cs) dd)) = cs"
  by (simp add: competitors_of_def update_conv')

lemma run_parts:
  assumes "run ts e now st = Inr (snap, chs)"
  shows "\<exists>data ex us. load_data st = Inr data \<and> load_existing data = Inr ex \<and>
           process_targets e ex ts = Inr (us, chs) \<and>
           competitors_of snap = map (\<lambda>u. PDict (merge_entry ex u)) us"
  using assms
  by (auto simp: run_def competitors_of_written split: sum.splits prod.splits pyval.splits)

lemma entry_pricing_merge: "entry_pricing (PDict (merge_entry ex u)) = Some (snd u)"
  by (simp add: merge_entry_def entry_pricing_def update_conv' split: option.splits)

lemma distinct_target_names: "distinct (map t_name scrape_targets)"
  by (simp add: scrape_targets_def)


lemma fetch_failed_None:
  "fetch e u = None \<Longrightarrow> snd (run_scraper e s (Some u)) = Inr None"
  by (cases s)
     (simp_all add: scrape_public_storage_def scrape_lockaway_def scrape_honea_egypt_def
      scrape_montgomery_def scrape_woodlands_sao_def fetch_url_def)

section \<open>The claims\<close>

text \<open>
  C1 (the reducer keeps the minimum price per size). Honea Egypt's loop assigns
  \<open>pricing[key]\<close> at every match, so a later, dearer observation replaces a cheaper one:
  on the observations 5x10 at 50 and then 5x10 at 80 it stores 80, where Montgomery's loop
  over the same matches stores the minimum, 50.
\<close>

theorem honea_egypt_keeps_last_price:
  "snd (scrape_honea_egypt
      (const_env (Some ''<html>units</html>'') [(''5'', ''10'', ''50''), (''5'', ''10'', ''80'')] [])
      (Some ''u''))
   = Inr (Some [(''5x10'', PInt 80), (''10x10'', PNone), (''10x15'', PNone),
                (''10x20'', PNone), (''10x30'', PNone)])
  \<and> snd (scrape_montgomery
      (const_env (Some ''<html>units</html>'') [(''5'', ''10'', ''50''), (''5'', ''10'', ''80'')] [])
      (Some ''u''))
   = Inr (Some [(''5x10'', PInt 50), (''10x10'', PNone), (''10x15'', PNone),
                (''10x20'', PNone), (''10x30'', PNone)])"
  by (intro conjI; code_simp)




text \<open>
  C3. When a run ends normally and writes \<open>snap\<close>, a second run in the same
  environment (the same pages and matches, hence the same new pricing for every
  competitor) over the store \<open>snap\<close> ends normally with an empty list of changes, and
  writes the same competitors again.
\<close>

theorem second_run_reports_no_change:
  assumes run: "main e now st = Inr (snap, changes)"
  shows "\<exists>snap'. main e now' (Stored snap) = Inr (snap', [])
           \<and> competitors_of snap' = competitors_of snap"
proof -
  from run obtain data ex us where
    ld: "load_data st = Inr data" and ex: "load_existing data = Inr ex" and
    pts: "process_targets e ex scrape_targets = Inr (us, changes)" and
    comps: "competitors_of snap = map (\<lambda>u. PDict (merge_entry ex u)) us"
    using run_parts[of scrape_targets e now st snap changes]
    by (auto simp: main_def)
  from ex obtain dd where dd: "data = PDict dd"
    by (auto simp: load_existing_def split: pyval.splits)
  let ?dd1 = "AList.update ''competitors'' (PList (map (\<lambda>u. PDict (merge_entry ex u)) us))
                (AList.update ''lastUpdated'' (PStr now) dd)"
  have snap: "snap = PDict ?dd1"
    using run ld ex pts dd by (simp add: main_def run_def)
  have names: "map fst us = map t_name scrape_targets" by (rule process_targets_names[OF pts])
  let ?ds = "map (\<lambda>u. (fst u, merge_entry ex u)) us"
  have nm: "\<forall>x \<in> set ?ds. map_of (snd x) ''name'' = Some (PStr (fst x))"
    using load_existing_inv[OF ex] by (auto simp: merge_entry_name)
  have dis: "distinct (map fst ?ds)"
    using distinct_target_names names by (simp add: comp_def)
  from build_existing_lookup[OF nm dis, of "[]"] obtain ex' where
    be: "build_existing (map (\<lambda>x. PDict (snd x)) ?ds) [] = Inr ex'" and
    lk: "\<forall>x \<in> set ?ds. map_of ex' (fst x) = Some (snd x)"
    by blast
  have le: "load_existing snap = Inr ex'"
    using be by (simp add: snap load_existing_def dict_get_def update_conv' comp_def)
  have old: "\<forall>u \<in> set us. old_pricing_of ex' (fst u) = snd u"
    using lk by (auto simp: old_pricing_of_def dict_get_def merge_entry_pricing)
  have pts': "process_targets e ex' scrape_targets = Inr (us, [])"
    by (rule process_targets_again[OF pts old])
  have same: "merge_entry ex' u = merge_entry ex u" if "u \<in> set us" for u
  proof -
    from lk that have "map_of ex' (fst u) = Some (merge_entry ex u)" by auto
    then have "merge_entry ex' u = AList.update ''pricing'' (snd u) (merge_entry ex u)"
      by (simp add: merge_entry_def)
    also have "\<dots> = merge_entry ex u"
      by (simp add: merge_entry_def split: option.splits)
    finally show ?thesis .
  qed
  let ?snap' = "PDict (AList.update ''competitors'' (PList (map (\<lambda>u. PDict (merge_entry ex' u)) us))
                (AList.update ''lastUpdated'' (PStr now') ?dd1))"
  have "main e now' (Stored snap) = Inr (?snap', [])"
    using le pts' by (simp add: main_def run_def load_data_def snap)
  moreover have "competitors_of ?snap' = competitors_of snap"
    using same by (simp add: competitors_of_written comps)
  ultimately show ?thesis by blast
qed

theorem second_run_reports_no_change_witness:
  "\<exists>snap snap'.
     main (single_site_env lockaway_url
             [(''5'', ''10'', ''55''), (''10'', ''15'', ''89''), (''10'', ''20'', ''120'')])
        ''2026-01-01 06:00 UTC'' example_store
       = Inr (snap, [(''Lockaway Storage'', ''5x10'', PInt 59, PInt 55),
                     (''Lockaway Storage'', ''10x20'', PNone, PInt 120)])
     \<and> main (single_site_env lockaway_url
             [(''5'', ''10'', ''55''), (''10'', ''15'', ''89''), (''10'', ''20'', ''120'')])
        ''2026-01-02 06:00 UTC'' (Stored snap) = Inr (snap', [])
     \<and> competitors_of snap' = competitors_of snap"
proof -
  let ?e = "single_site_env lockaway_url
             [(''5'', ''10'', ''55''), (''10'', ''15'', ''89''), (''10'', ''20'', ''120'')]"
  have "run_changes (main ?e ''2026-01-01 06:00 UTC'' example_store)
      = Some [(''Lockaway Storage'', ''5x10'', PInt 59, PInt 55),
              (''Lockaway Storage'', ''10x20'', PNone, PInt 120)]"
    by code_simp
  then obtain snap where m: "main ?e ''2026-01-01 06:00 UTC'' example_store
      = Inr (snap, [(''Lockaway Storage'', ''5x10'', PInt 59, PInt 55),
              (''Lockaway Storage'', ''10x20'', PNone, PInt 120)])"
    by (auto simp: run_changes_def split: sum.splits prod.splits)
  from second_run_reports_no_change[OF m, of "''2026-01-02 06:00 UTC''"] m show ?thesis by blast
qed

text \<open>
  Against C4 as stated: the stored competitor "Magnolia Storage" is not one of
  \<open>scrape_targets\<close>; the merged output holds the eight configured names only, so its
  entry, phone number included, is gone.
\<close>

theorem unconfigured_competitor_dropped:
  "PDict magnolia_entry \<in> set (competitors_of example_data)
   \<and> entry_name (PDict magnolia_entry) = Some (PStr ''Magnolia Storage'')
   \<and> run_names (main (const_env None [] []) ''2026-01-01 06:00 UTC'' example_store)
     = Some [Some (PStr ''Lockaway Storage''), Some (PStr ''Public Storage (FM 1488)''),
             Some (PStr ''Public Storage (FM 2978)''), Some (PStr ''SmartStop Self Storage''),
             Some (PStr ''Honea Egypt Self Storage''), Some (PStr ''Montgomery Self Storage''),
             Some (PStr ''Woodlands Storage & Office''), Some (PStr ''Storage King USA'')]"
  by (intro conjI; code_simp)

text \<open>
  C4, amended. For every configured competitor (the \<open>i\<close>-th of \<open>scrape_targets\<close>)
  for which \<open>existing\<close> holds an entry \<open>c\<close> of the previous snapshot (the last stored
  entry with that name), the \<open>i\<close>-th entry of the merged output is \<open>c\<close> with the value
  of \<open>pricing\<close> replaced: every other field is as it was, in the same place. The
  merged output holds exactly the configured competitors, in configured order.
\<close>

theorem configured_entry_keeps_metadata:
  assumes run: "main e now st = Inr (snap, changes)"
    and ld: "load_data st = Inr data" and ex: "load_existing data = Inr existing"
    and i: "i < length scrape_targets"
    and c: "map_of existing (t_name (scrape_targets ! i)) = Some c"
  shows "PDict c \<in> set (competitors_of data)
       \<and> entry_name (PDict c) = Some (PStr (t_name (scrape_targets ! i)))
       \<and> (\<exists>p. competitors_of snap ! i = PDict (AList.update ''pricing'' p c)
              \<and> (\<forall>k. k \<noteq> ''pricing'' \<longrightarrow> map_of (AList.update ''pricing'' p c) k = map_of c k))
       \<and> map entry_name (competitors_of snap) = map (\<lambda>t. Some (PStr (t_name t))) scrape_targets"
proof -
  let ?t = "scrape_targets ! i"
  from run obtain us where
    pts: "process_targets e existing scrape_targets = Inr (us, changes)" and
    comps: "competitors_of snap = map (\<lambda>u. PDict (merge_entry existing u)) us"
    using run_parts[of scrape_targets e now st snap changes] ld ex
    by (auto simp: main_def)
  have len: "length us = length scrape_targets" by (rule process_targets_length[OF pts])
  have names: "map fst us = map t_name scrape_targets" by (rule process_targets_names[OF pts])
  have ni: "fst (us ! i) = t_name ?t"
    using names i len by (metis nth_map)
  have a: "PDict c \<in> set (competitors_of data)" "entry_name (PDict c) = Some (PStr (t_name ?t))"
    using load_existing_inv[OF ex c] by (simp_all add: entry_name_def)
  have "competitors_of snap ! i = PDict (merge_entry existing (us ! i))"
    using comps i len by simp
  also have "merge_entry existing (us ! i) = AList.update ''pricing'' (snd (us ! i)) c"
    using c ni by (simp add: merge_entry_def)
  finally have b: "competitors_of snap ! i = PDict (AList.update ''pricing'' (snd (us ! i)) c)" .
  have frame: "\<forall>k. k \<noteq> ''pricing'' \<longrightarrow> map_of (AList.update ''pricing'' (snd (us ! i)) c) k = map_of c k"
    by (simp add: update_conv')
  have "entry_name (PDict (merge_entry existing u)) = Some (PStr (fst u))" for u
    unfolding entry_name_def using load_existing_inv[OF ex]
    by (simp add: merge_entry_name)
  then have "map entry_name (competitors_of snap) = map (\<lambda>u. Some (PStr (fst u))) us"
    by (simp add: comps)
  also have "\<dots> = map (\<lambda>n. Some (PStr n)) (map fst us)" by (simp add: comp_def)
  also have "\<dots> = map (\<lambda>t. Some (PStr (t_name t))) scrape_targets"
    by (simp add: names comp_def)
  finally have d: "map entry_name (competitors_of snap) = map (\<lambda>t. Some (PStr (t_name t))) scrape_targets" .
  from a b frame d show ?thesis by blast
qed

theorem configured_entry_keeps_metadata_witness:
  "\<exists>snap changes p.
     main (const_env None [] []) ''2026-01-01 06:00 UTC'' example_store = Inr (snap, changes)
     \<and> load_data example_store = Inr example_data
     \<and> load_existing example_data
         = Inr [(''Lockaway Storage'', lockaway_entry), (''Magnolia Storage'', magnolia_entry)]
     \<and> t_name (scrape_targets ! 0) = ''Lockaway Storage''
     \<and> competitors_of snap ! 0 = PDict (AList.update ''pricing'' p lockaway_entry)
     \<and> map_of (AList.update ''pricing'' p lockaway_entry) ''address'' = Some (PStr ''1 Main St'')
     \<and> map entry_name (competitors_of snap)
         = map (\<lambda>t. Some (PStr (t_name t))) scrape_targets"
proof -
  let ?e = "const_env None [] []"
  have "run_changes (main ?e ''2026-01-01 06:00 UTC'' example_store) = Some []"
    by code_simp
  then obtain snap where m: "main ?e ''2026-01-01 06:00 UTC'' example_store = Inr (snap, [])"
    by (auto simp: run_changes_def split: sum.splits prod.splits)
  have ld: "load_data example_store = Inr example_data"
    by (simp add: load_data_def example_store_def)
  have ex: "load_existing example_data
         = Inr [(''Lockaway Storage'', lockaway_entry), (''Magnolia Storage'', magnolia_entry)]"
    by (simp add: load_existing_def example_data_def lockaway_entry_def magnolia_entry_def
        dict_get_def)
  have i: "0 < length scrape_targets" by (simp add: scrape_targets_def)
  have n: "t_name (scrape_targets ! 0) = ''Lockaway Storage''" by (simp add: scrape_targets_def)
  have c: "map_of [(''Lockaway Storage'', lockaway_entry), (''Magnolia Storage'', magnolia_entry)]
             (t_name (scrape_targets ! 0)) = Some lockaway_entry"
    by (simp add: n)
  have a: "map_of lockaway_entry ''address'' = Some (PStr ''1 Main St'')"
    by (simp add: lockaway_entry_def)
  from configured_entry_keeps_metadata[OF m ld ex i c] obtain p where
    "competitors_of snap ! 0 = PDict (AList.update ''pricing'' p lockaway_entry)"
    "map_of (AList.update ''pricing'' p lockaway_entry) ''address'' = map_of lockaway_entry ''address''"
    "map entry_name (competitors_of snap) = map (\<lambda>t. Some (PStr (t_name t))) scrape_targets"
    by auto
  with m ld ex n a show ?thesis by auto
qed



text \<open>
  Against C6 as stated: when \<open>data.json\<close> exists and is not JSON, \<open>json.load\<close> raises,
  nothing catches it, and the run ends there. The same holds for JSON of another shape:
  a list at the top (\<open>data.get\<close>), a competitor without a name (\<open>c["name"]\<close>), and a
  competitor whose pricing is \<open>null\<close> when its scraper returns a table
  (\<open>old_pricing.get\<close>).
\<close>

theorem malformed_store_ends_run:
  "main (const_env None [] []) ''2026-01-01 06:00 UTC'' Unparsable = Inl JSONDecodeError
   \<and> main (const_env None [] []) ''2026-01-01 06:00 UTC'' (Stored (PList []))
       = Inl AttributeError
   \<and> main (const_env None [] []) ''2026-01-01 06:00 UTC''
        (Stored (PDict [(''competitors'', PList [PDict [(''address'', PStr ''1 Main St'')]])]))
       = Inl KeyError
   \<and> main (single_site_env lockaway_url [(''5'', ''10'', ''55'')]) ''2026-01-01 06:00 UTC''
        (Stored (PDict [(''competitors'',
           PList [PDict [(''name'', PStr ''Lockaway Storage''), (''pricing'', PNone)]])]))
       = Inl AttributeError"
  by (intro conjI; code_simp)

text \<open>
  C6, amended. A missing store is read as a store with no competitors: no stored entry
  is found, the previous pricing of every competitor is the all-absent table, and the run
  can only end with an exception that a scraper raised, never because of the store: when no
  scraper raises, the run ends normally. A store that is present and not JSON ends the run
  with JSONDecodeError.
\<close>

theorem missing_store_is_no_prior_data:
  "main e now Missing
     = main e now (Stored (PDict [(''lastUpdated'', PNone), (''competitors'', PList [])]))
   \<and> load_existing (PDict [(''lastUpdated'', PNone), (''competitors'', PList [])]) = Inr []
   \<and> old_pricing_of [] n = PDict empty_pricing
   \<and> (main e now Missing = Inl err \<longrightarrow>
        (\<exists>t \<in> set scrape_targets. \<exists>s. t_scraper t = Some s \<and>
           snd (run_scraper e s (t_url t)) = Inl err))
   \<and> ((\<forall>t \<in> set scrape_targets. \<forall>s. t_scraper t = Some s \<longrightarrow>
           (\<exists>r. snd (run_scraper e s (t_url t)) = Inr r)) \<longrightarrow>
        (\<exists>snap changes. main e now Missing = Inr (snap, changes)))
   \<and> main e now Unparsable = Inl JSONDecodeError"
proof (intro conjI impI)
  show "main e now Missing
     = main e now (Stored (PDict [(''lastUpdated'', PNone), (''competitors'', PList [])]))"
    by (simp add: main_def run_def load_data_def)
  show le: "load_existing (PDict [(''lastUpdated'', PNone), (''competitors'', PList [])]) = Inr []"
    by (simp add: load_existing_def dict_get_def)
  show "old_pricing_of [] n = PDict empty_pricing" by (rule old_pricing_of_Nil)
  show "main e now Unparsable = Inl JSONDecodeError"
    by (simp add: main_def run_def load_data_def)
  assume "main e now Missing = Inl err"
  then have "process_targets e [] scrape_targets = Inl err"
    using le by (auto simp: main_def run_def load_data_def split: sum.splits prod.splits)
  from process_targets_error[OF this] obtain t where
    t: "t \<in> set scrape_targets" and p: "process_target e [] t = Inl err" by blast
  from process_target_error[OF p] old_pricing_of_Nil t
  show "\<exists>t \<in> set scrape_targets. \<exists>s. t_scraper t = Some s \<and>
           snd (run_scraper e s (t_url t)) = Inl err"
    by blast
next
  assume ok: "\<forall>t \<in> set scrape_targets. \<forall>s. t_scraper t = Some s \<longrightarrow>
           (\<exists>r. snd (run_scraper e s (t_url t)) = Inr r)"
  have le: "load_existing (PDict [(''lastUpdated'', PNone), (''competitors'', PList [])]) = Inr []"
    by (simp add: load_existing_def dict_get_def)
  show "\<exists>snap changes. main e now Missing = Inr (snap, changes)"
  proof (cases "main e now Missing")
    case (Inl err)
    then have "process_targets e [] scrape_targets = Inl err"
      using le by (auto simp: main_def run_def load_data_def split: sum.splits prod.splits)
    from process_targets_error[OF this] obtain t where
      t: "t \<in> set scrape_targets" and p: "process_target e [] t = Inl err" by blast
    from process_target_error[OF p] old_pricing_of_Nil obtain s where
      "t_scraper t = Some s" "snd (run_scraper e s (t_url t)) = Inl err" by blast
    with ok t show ?thesis by fastforce
  next
    case (Inr r)
    then show ?thesis by (cases r) auto
  qed
qed

theorem missing_store_is_no_prior_data_witness:
  "main (single_site_env public_storage_url [(''5'', ''10'', ''1.2.3'')])
      ''2026-01-01 06:00 UTC'' Missing = Inl ValueError
   \<and> (\<exists>t \<in> set scrape_targets. \<exists>s. t_scraper t = Some s \<and>
         snd (run_scraper (single_site_env public_storage_url [(''5'', ''10'', ''1.2.3'')])
                s (t_url t)) = Inl ValueError)
   \<and> snd (run_scraper (const_env None [] []) Lockaway (Some lockaway_url)) = Inr None
   \<and> (\<exists>snap changes.
         main (const_env None [] []) ''2026-01-01 06:00 UTC'' Missing = Inr (snap, changes))"
proof -
  let ?e = "single_site_env public_storage_url [(''5'', ''10'', ''1.2.3'')]"
  let ?off = "const_env None [] []"
  have m: "main ?e ''2026-01-01 06:00 UTC'' Missing = Inl ValueError" by code_simp
  have f: "snd (run_scraper ?off s (Some u)) = Inr None" for s u
    by (rule fetch_failed_None) (simp add: const_env_def)
  have ok: "\<forall>t \<in> set scrape_targets. \<forall>s. t_scraper t = Some s \<longrightarrow>
           (\<exists>r. snd (run_scraper ?off s (t_url t)) = Inr r)"
    using f by (simp add: scrape_targets_def del: run_scraper.simps)
  from missing_store_is_no_prior_data[of ?e "''2026-01-01 06:00 UTC''" "''x''" ValueError] m
  have 1: "\<exists>t \<in> set scrape_targets. \<exists>s. t_scraper t = Some s \<and>
         snd (run_scraper ?e s (t_url t)) = Inl ValueError"
    by blast
  from missing_store_is_no_prior_data[of ?off "''2026-01-01 06:00 UTC''" "''x''" ValueError] ok
  have 2: "\<exists>snap changes. main ?off ''2026-01-01 06:00 UTC'' Missing = Inr (snap, changes)"
    by blast
  from m 1 2 f[of Lockaway lockaway_url] show ?thesis by blast
qed

text \<open>
  Against C7 as stated: the fetch succeeds with empty text; the scraper returns \<open>None\<close>
  (not the all-absent table), and the run writes Lockaway's previous prices again and
  reports no change.
\<close>

theorem empty_page_keeps_old_pricing:
  "fetch (const_env (Some []) [(''5'', ''10'', ''55'')] []) lockaway_url = Some []
   \<and> snd (scrape_lockaway (const_env (Some []) [(''5'', ''10'', ''55'')] []) (Some lockaway_url))
       = Inr None
   \<and> run_pricing (main (const_env (Some []) [(''5'', ''10'', ''55'')] [])
         ''2026-01-01 06:00 UTC'' example_store) 0
       = Some (PDict [(''5x10'', PInt 59), (''10x10'', PNone), (''10x15'', PInt 89),
                      (''10x20'', PNone), (''10x30'', PNone)])
   \<and> run_changes (main (const_env (Some []) [(''5'', ''10'', ''55'')] [])
         ''2026-01-01 06:00 UTC'' example_store) = Some []"
  by (intro conjI; code_simp)

text \<open>
  C7, amended. \<open>fetch\<close> tells failure (\<open>None\<close>) from empty text (the empty string), but
  every scraper tests \<open>if not html\<close>: on empty text it evaluates no pattern and returns
  \<open>None\<close>, exactly as on a failed fetch, and the loop keeps the previous pricing of that
  competitor and adds no change.
\<close>

theorem empty_page_like_failed_fetch:
  assumes "fetch e u = Some []" "fetch e' u = None"
  shows "run_scraper e s (Some u) = ([], Inr None)
       \<and> run_scraper e' s (Some u) = run_scraper e s (Some u)
       \<and> process_target e existing \<lparr>t_name = n, t_url = Some u, t_scraper = Some s\<rparr>
           = Inr ((n, old_pricing_of existing n), [])"
proof -
  have a: "run_scraper e s (Some u) = ([], Inr None)"
    using assms(1)
    by (cases s)
       (simp_all add: scrape_public_storage_def scrape_lockaway_def scrape_honea_egypt_def
          scrape_montgomery_def scrape_woodlands_sao_def fetch_url_def)
  have b: "run_scraper e' s (Some u) = ([], Inr None)"
    using assms(2)
    by (cases s)
       (simp_all add: scrape_public_storage_def scrape_lockaway_def scrape_honea_egypt_def
          scrape_montgomery_def scrape_woodlands_sao_def fetch_url_def)
  from a b show ?thesis by (simp add: process_target_def)
qed

theorem empty_page_like_failed_fetch_witness:
  "fetch (const_env (Some []) [(''5'', ''10'', ''55'')] []) lockaway_url = Some []
   \<and> fetch (const_env None [(''5'', ''10'', ''55'')] []) lockaway_url = None
   \<and> run_scraper (const_env (Some []) [(''5'', ''10'', ''55'')] []) Lockaway (Some lockaway_url)
       = ([], Inr None)
   \<and> run_scraper (const_env None [(''5'', ''10'', ''55'')] []) Lockaway (Some lockaway_url)
       = run_scraper (const_env (Some []) [(''5'', ''10'', ''55'')] []) Lockaway (Some lockaway_url)
   \<and> process_target (const_env (Some []) [(''5'', ''10'', ''55'')] [])
         [(''Lockaway Storage'', lockaway_entry)]
         \<lparr>t_name = ''Lockaway Storage'', t_url = Some lockaway_url, t_scraper = Some Lockaway\<rparr>
       = Inr ((''Lockaway Storage'',
               old_pricing_of [(''Lockaway Storage'', lockaway_entry)] ''Lockaway Storage''), [])"
proof -
  have 1: "fetch (const_env (Some []) [(''5'', ''10'', ''55'')] []) lockaway_url = Some []"
    by (simp add: const_env_def)
  have 2: "fetch (const_env None [(''5'', ''10'', ''55'')] []) lockaway_url = None"
    by (simp add: const_env_def)
  from empty_page_like_failed_fetch[OF 1 2, of Lockaway "[(''Lockaway Storage'', lockaway_entry)]"
      "''Lockaway Storage''"] 1 2
  show ?thesis by simp
qed

text \<open>
  C8. Previous pricing \<open>{5x10: 59, 10x10: null, 10x15: 89, 10x20: null, 10x30: null}\<close>
  against new pricing \<open>{5x10: 55, 10x10: null, 10x15: 89, 10x20: 120, 10x30: null}\<close>
  gives exactly the two changes \<open>5x10: 59 -> 55\<close> and \<open>10x20: null -> 120\<close>, for any
  competitor name; and a whole run in which Lockaway's page reduces to that table, over a
  store holding that previous pricing, reports exactly these two changes.
\<close>

theorem worked_example_changes:
  "detect_changes n
     (PDict [(''5x10'', PInt 59), (''10x10'', PNone), (''10x15'', PInt 89), (''10x20'', PNone),
             (''10x30'', PNone)])
     [(''5x10'', PInt 55), (''10x10'', PNone), (''10x15'', PInt 89), (''10x20'', PInt 120),
      (''10x30'', PNone)]
     canonical_sizes
   = Inr [(n, ''5x10'', PInt 59, PInt 55), (n, ''10x20'', PNone, PInt 120)]
   \<and> snd (scrape_lockaway
        (single_site_env lockaway_url
           [(''5'', ''10'', ''55''), (''10'', ''15'', ''89''), (''10'', ''20'', ''120'')])
        (Some lockaway_url))
     = Inr (Some [(''5x10'', PInt 55), (''10x10'', PNone), (''10x15'', PInt 89),
                  (''10x20'', PInt 120), (''10x30'', PNone)])
   \<and> run_changes
       (main (single_site_env lockaway_url
                [(''5'', ''10'', ''55''), (''10'', ''15'', ''89''), (''10'', ''20'', ''120'')])
          ''2026-01-01 06:00 UTC'' example_store)
     = Some [(''Lockaway Storage'', ''5x10'', PInt 59, PInt 55),
             (''Lockaway Storage'', ''10x20'', PNone, PInt 120)]"
proof (intro conjI)
  show "detect_changes n
     (PDict [(''5x10'', PInt 59), (''10x10'', PNone), (''10x15'', PInt 89), (''10x20'', PNone),
             (''10x30'', PNone)])
     [(''5x10'', PInt 55), (''10x10'', PNone), (''10x15'', PInt 89), (''10x20'', PInt 120),
      (''10x30'', PNone)]
     canonical_sizes
   = Inr [(n, ''5x10'', PInt 59, PInt 55), (n, ''10x20'', PNone, PInt 120)]"
    by (simp add: canonical_sizes_def dict_get_def py_ne_def)
qed code_simp+

text \<open>
  Against C9 as stated: SmartStop has no scraper, so the pricing object the store holds
  for it is written back as it is; here it has two keys, a negative price and a string,
  and is not a PricingTable.
\<close>

theorem malformed_pricing_written_back:
  "t_scraper (scrape_targets ! 3) = None
   \<and> run_pricing (main (const_env None [] []) ''2026-01-01 06:00 UTC'' smartstop_store) 3
       = Some (PDict [(''5x10'', PInt (- 7)), (''9x9'', PStr ''cheap'')])
   \<and> \<not> wf_pricing (PDict [(''5x10'', PInt (- 7)), (''9x9'', PStr ''cheap'')])"
  by (intro conjI; code_simp)

text \<open>
  C9, amended. Every pricing a scraper returns holds exactly the five canonical keys, each
  \<open>None\<close> or an integer that is not negative. A run that ends normally writes one
  competitor for each target, and the pricing written for a competitor is either such a
  table or that competitor's previous pricing, carried forward as stored (the all-absent
  table when the store had none). Hence, over stored data in which every competitor's
  pricing is such a table, every competitor written has a pricing that is such a table.
  \<open>None\<close> is not the price zero.
\<close>

theorem pricing_tables_well_formed:
  "(snd (run_scraper e s url) = Inr (Some P) \<longrightarrow> wf_pricing (PDict P))
   \<and> (main e now st = Inr (snap, changes) \<and> load_data st = Inr data
        \<and> load_existing data = Inr existing \<and> i < length scrape_targets
      \<longrightarrow> length (competitors_of snap) = length scrape_targets
          \<and> (\<exists>p. entry_pricing (competitors_of snap ! i) = Some p
                \<and> (wf_pricing p \<or> p = old_pricing_of existing (t_name (scrape_targets ! i)))))
   \<and> (main e now st = Inr (snap, changes) \<and> load_data st = Inr data
        \<and> list_all wf_stored (competitors_of data)
      \<longrightarrow> list_all wf_written (competitors_of snap))
   \<and> PNone \<noteq> PInt 0"
proof (intro conjI impI)
  show "wf_pricing (PDict P)" if "snd (run_scraper e s url) = Inr (Some P)"
    using that by (rule run_scraper_wf)
next
  assume a: "main e now st = Inr (snap, changes) \<and> load_data st = Inr data
        \<and> load_existing data = Inr existing \<and> i < length scrape_targets"
  then obtain us where
    pts: "process_targets e existing scrape_targets = Inr (us, changes)" and
    comps: "competitors_of snap = map (\<lambda>u. PDict (merge_entry existing u)) us"
    using run_parts[of scrape_targets e now st snap changes]
    by (auto simp: main_def)
  have len: "length us = length scrape_targets" by (rule process_targets_length[OF pts])
  then show "length (competitors_of snap) = length scrape_targets" by (simp add: comps)
  from a have i: "i < length scrape_targets" by simp
  from process_targets_nth[OF pts i] obtain ch where
    pt: "process_target e existing (scrape_targets ! i) = Inr (us ! i, ch)" by blast
  have "entry_pricing (competitors_of snap ! i) = Some (snd (us ! i))"
    using comps i len by (simp add: entry_pricing_merge)
  with process_target_pricing[OF pt]
  show "\<exists>p. entry_pricing (competitors_of snap ! i) = Some p
          \<and> (wf_pricing p \<or> p = old_pricing_of existing (t_name (scrape_targets ! i)))"
    by blast
next
  assume a: "main e now st = Inr (snap, changes) \<and> load_data st = Inr data
        \<and> list_all wf_stored (competitors_of data)"
  then obtain ex us where
    ex: "load_existing data = Inr ex" and
    pts: "process_targets e ex scrape_targets = Inr (us, changes)" and
    comps: "competitors_of snap = map (\<lambda>u. PDict (merge_entry ex u)) us"
    using run_parts[of scrape_targets e now st snap changes]
    by (auto simp: main_def)
  have "wf_pricing (snd u)" if "u \<in> set us" for u
  proof -
    from process_targets_mem[OF pts that] obtain t ch where
      "process_target e ex t = Inr (u, ch)" by blast
    from process_target_wf[OF this old_pricing_wf[OF ex]] a show ?thesis by simp
  qed
  then show "list_all wf_written (competitors_of snap)"
    by (simp add: comps list_all_iff wf_written_def entry_pricing_merge)
qed simp

theorem pricing_tables_well_formed_witness:
  "\<exists>snap changes p.
     snd (run_scraper
       (single_site_env lockaway_url
          [(''5'', ''10'', ''55''), (''10'', ''15'', ''89''), (''10'', ''20'', ''120'')])
       Lockaway (Some lockaway_url))
     = Inr (Some [(''5x10'', PInt 55), (''10x10'', PNone), (''10x15'', PInt 89),
                  (''10x20'', PInt 120), (''10x30'', PNone)])
     \<and> wf_pricing (PDict [(''5x10'', PInt 55), (''10x10'', PNone), (''10x15'', PInt 89),
                  (''10x20'', PInt 120), (''10x30'', PNone)])
     \<and> main (single_site_env lockaway_url
          [(''5'', ''10'', ''55''), (''10'', ''15'', ''89''), (''10'', ''20'', ''120'')])
          ''2026-01-01 06:00 UTC'' example_store = Inr (snap, changes)
     \<and> load_data example_store = Inr example_data
     \<and> load_existing example_data
         = Inr [(''Lockaway Storage'', lockaway_entry), (''Magnolia Storage'', magnolia_entry)]
     \<and> length (competitors_of snap) = length scrape_targets
     \<and> entry_pricing (competitors_of snap ! 3) = Some p
     \<and> (wf_pricing p \<or>
          p = old_pricing_of
                [(''Lockaway Storage'', lockaway_entry), (''Magnolia Storage'', magnolia_entry)]
                (t_name (scrape_targets ! 3)))
     \<and> list_all wf_stored (competitors_of example_data)
     \<and> list_all wf_written (competitors_of snap)"
proof -
  let ?e = "single_site_env lockaway_url
          [(''5'', ''10'', ''55''), (''10'', ''15'', ''89''), (''10'', ''20'', ''120'')]"
  let ?P = "[(''5x10'', PInt 55), (''10x10'', PNone), (''10x15'', PInt 89),
                  (''10x20'', PInt 120), (''10x30'', PNone)]"
  let ?ex = "[(''Lockaway Storage'', lockaway_entry), (''Magnolia Storage'', magnolia_entry)]"
  have s: "snd (run_scraper ?e Lockaway (Some lockaway_url)) = Inr (Some ?P)" by code_simp
  have "run_changes (main ?e ''2026-01-01 06:00 UTC'' example_store)
      = Some [(''Lockaway Storage'', ''5x10'', PInt 59, PInt 55),
              (''Lockaway Storage'', ''10x20'', PNone, PInt 120)]"
    by code_simp
  then obtain snap changes where m: "main ?e ''2026-01-01 06:00 UTC'' example_store
      = Inr (snap, changes)"
    by (auto simp: run_changes_def split: sum.splits prod.splits)
  have ld: "load_data example_store = Inr example_data"
    by (simp add: load_data_def example_store_def)
  have ex: "load_existing example_data = Inr ?ex"
    by (simp add: load_existing_def example_data_def lockaway_entry_def magnolia_entry_def
        dict_get_def)
  have i: "3 < length scrape_targets" by (simp add: scrape_targets_def)
  have w: "list_all wf_stored (competitors_of example_data)" by code_simp
  from pricing_tables_well_formed[of ?e Lockaway "Some lockaway_url" ?P "''2026-01-01 06:00 UTC''" example_store
      snap changes example_data ?ex 3]
    s m ld ex i w show ?thesis by blast
qed

text \<open>
  C10. A price ending in .50 is stored as the nearest even amount: \<open>n + 1/2\<close> rounds to
  \<open>n\<close> when \<open>n\<close> is even and to \<open>n + 1\<close> otherwise, and each of the five scrapers stores
  40 for a single observation of 40.50 and 42 for a single observation of 41.50.
\<close>

theorem half_prices_round_to_even:
  "py_round (of_int n + 1 / 2) = (if even n then n else n + 1)
   \<and> py_float ''40.50'' = Some (of_int 40 + 1 / 2)
   \<and> py_float ''41.50'' = Some (of_int 41 + 1 / 2)
   \<and> snd (scrape_lockaway
        (const_env (Some ''<html>units</html>'')
           [(''5'', ''10'', ''40.50''), (''10'', ''10'', ''41.50'')] []) (Some ''u''))
     = Inr (Some [(''5x10'', PInt 40), (''10x10'', PInt 42), (''10x15'', PNone),
                  (''10x20'', PNone), (''10x30'', PNone)])
   \<and> snd (scrape_public_storage
        (const_env (Some ''<html>units</html>'')
           [(''5'', ''10'', ''40.50''), (''10'', ''10'', ''41.50'')] []) (Some ''u'') ''PS'')
     = Inr (Some [(''5x10'', PInt 40), (''10x10'', PInt 42), (''10x15'', PNone),
                  (''10x20'', PNone), (''10x30'', PNone)])
   \<and> snd (scrape_honea_egypt
        (const_env (Some ''<html>units</html>'')
           [(''5'', ''10'', ''40.50''), (''10'', ''10'', ''41.50'')] []) (Some ''u''))
     = Inr (Some [(''5x10'', PInt 40), (''10x10'', PInt 42), (''10x15'', PNone),
                  (''10x20'', PNone), (''10x30'', PNone)])
   \<and> snd (scrape_montgomery
        (const_env (Some ''<html>units</html>'')
           [(''5'', ''10'', ''40.50''), (''10'', ''10'', ''41.50'')] []) (Some ''u''))
     = Inr (Some [(''5x10'', PInt 40), (''10x10'', PInt 42), (''10x15'', PNone),
                  (''10x20'', PNone), (''10x30'', PNone)])
   \<and> snd (scrape_woodlands_sao
        (const_env (Some ''<html>units</html>'')
           [(''5'', ''10'', ''40.50''), (''10'', ''10'', ''41.50'')] []) (Some ''u''))
     = Inr (Some [(''5x10'', PInt 40), (''10x10'', PInt 42), (''10x15'', PNone),
                  (''10x20'', PNone), (''10x30'', PNone)])"
proof (intro conjI)
  show "py_round (of_int n + 1 / 2) = (if even n then n else n + 1)"
    by (rule py_round_half)
qed code_simp+

end
